theory Spec2Isabelle
  imports Main "HOL-Library.Char_ord" "HOL-Library.List_Lexorder"
begin

section \<open>Data model (app/db/models.py)\<close>

datatype OrderStatus = PENDING | PROCESSING | COMPLETED | FAILED | CANCELLED

datatype SyncStatus = SUCCESS | FAILURE | RETRY

text \<open>The columns the tasks read or write. Timestamps are integers (a reading of the clock).\<close>

record Product =
  p_id :: int
  p_sku :: string
  p_name :: string

record Inventory =
  inv_id :: int
  inv_product_id :: int
  quantity :: int
  reserved :: int
  reorder_level :: int
  inv_updated_at :: "int option"

record OrderItem =
  item_sku :: string
  item_quantity :: int

text \<open>The relationship \<open>Order.items\<close> is carried in the row, in the order the ORM loads it.\<close>

record Order =
  order_id :: int
  external_order_id :: string
  status :: OrderStatus
  items :: "OrderItem list"
  processed_at :: "int option"
  error_message :: "string option"
  retry_count :: int

record SyncLog =
  task_id :: "string option"
  task_name :: string
  log_status :: SyncStatus
  log_order_id :: "int option"
  details :: "string option"
  log_error_message :: "string option"
  traceback :: "string option"
  duration_ms :: "int option"

text \<open>The committed database: one list of rows per table, in table order.\<close>

record Db =
  products :: "Product list"
  inventory :: "Inventory list"
  orders :: "Order list"
  sync_logs :: "SyncLog list"

text \<open>\<open>Inventory.available\<close>: total quantity minus reserved.\<close>

definition available :: "Inventory \<Rightarrow> int" where
  "available row = quantity row - reserved row"

text \<open>\<open>Inventory.is_low_stock\<close>.\<close>

definition is_low_stock :: "Inventory \<Rightarrow> bool" where
  "is_low_stock row = (available row \<le> reorder_level row)"

section \<open>Queries and in-place updates of a loaded row\<close>

text \<open>
  \<open>query.filter(P).first()\<close> is \<open>find P rows\<close>. An attribute assignment on the object
  that such a query returned changes that row, the first one matching, and no other.
\<close>

fun update_first :: "('a \<Rightarrow> bool) \<Rightarrow> ('a \<Rightarrow> 'a) \<Rightarrow> 'a list \<Rightarrow> 'a list" where
  "update_first P f [] = []"
| "update_first P f (x # xs) = (if P x then f x # xs else x # update_first P f xs)"

section \<open>Python string formatting\<close>

definition digit_char :: "nat \<Rightarrow> char" where
  "digit_char d = char_of (48 + d)"

fun str_nat :: "nat \<Rightarrow> string" where
  "str_nat n = (if n < 10 then [digit_char n] else str_nat (n div 10) @ [digit_char (n mod 10)])"

declare str_nat.simps [simp del]

text \<open>\<open>str(i)\<close> of a Python int.\<close>

definition str_int :: "int \<Rightarrow> string" where
  "str_int i = (if i < 0 then CHR ''-'' # str_nat (nat (- i)) else str_nat (nat i))"

text \<open>The em dash of the source's messages, as its three UTF-8 bytes.\<close>

definition em_dash :: string where
  "em_dash = [CHR 0xE2, CHR 0x80, CHR 0x94]"

definition status_value :: "OrderStatus \<Rightarrow> string" where
  "status_value s = (case s of PENDING \<Rightarrow> ''pending'' | PROCESSING \<Rightarrow> ''processing''
     | COMPLETED \<Rightarrow> ''completed'' | FAILED \<Rightarrow> ''failed'' | CANCELLED \<Rightarrow> ''cancelled'')"

section \<open>The order task (app/tasks/order_tasks.py)\<close>

text \<open>
  What an attempt receives from outside the database rows: the Celery request (its id and
  the number of retries so far), the clock, and the faults of the infrastructure. A fault
  is an exception other than \<open>ValueError\<close> raised by a database call of the task body, at
  the point named: the first query (line 41), the commit of PROCESSING (line 49), the
  queries of the \<open>k\<close>-th line item (lines 53 to 62), the final commit (line 91), or the
  reload of the expired order row that the lines after that commit cause (line 93). The
  two flags say whether the database call inside \<open>_mark_failed\<close> and inside
  \<open>_log_retry\<close> raises (an outage, or the database refusing the row).
\<close>

datatype fault_point = FaultLoad | FaultClaim | FaultItem nat | FaultCommit | FaultAfterCommit

record task_env =
  request_id :: "string option"
  retries :: nat
  clock :: "nat \<Rightarrow> int"
  elapsed_ms :: int
  fault :: "fault_point option"
  fault_type :: string
  fault_text :: string
  traceback_text :: string
  mark_failed_fault :: bool
  log_retry_fault :: bool

text \<open>The decorator's \<open>max_retries=3\<close>.\<close>

definition max_retries :: nat where
  "max_retries = 3"

datatype exn = ValueError string | OtherError string string

text \<open>
  The task's results: the three dictionaries it returns (status "error", "completed",
  "failed") and \<open>raise self.retry(countdown=delay, exc=e)\<close>.
\<close>

datatype task_result =
    TaskError string
  | TaskCompleted int string int
  | TaskFailed int string
  | TaskRetry nat string

definition unexpected :: "task_env \<Rightarrow> exn" where
  "unexpected env = OtherError (fault_type env) (fault_text env)"

definition product_not_found_msg :: "string \<Rightarrow> string" where
  "product_not_found_msg sku = ''Product with SKU '' @ [CHR 0x27] @ sku @ [CHR 0x27] @ '' not found in catalog''"

definition no_inventory_msg :: "string \<Rightarrow> string" where
  "no_inventory_msg sku = ''No inventory record for '' @ [CHR 0x27] @ sku @ [CHR 0x27]"

definition insufficient_stock_msg :: "string \<Rightarrow> int \<Rightarrow> int \<Rightarrow> string" where
  "insufficient_stock_msg sku requested avail =
     ''Insufficient stock for '' @ [CHR 0x27] @ sku @ [CHR 0x27] @ '': requested='' @ str_int requested
       @ '', available='' @ str_int avail"

definition order_not_found_msg :: "int \<Rightarrow> string" where
  "order_not_found_msg oid = ''Order '' @ str_int oid @ '' not found''"

text \<open>
  The loop over \<open>order.items\<close> (lines 52 to 75), on the tables it reads and writes. It
  returns the inventory table as the session holds it after the last item, or the exception
  raised, and the SKUs whose inventory row was locked (\<open>with_for_update\<close> returned a row),
  in the order of locking. \<open>k\<close> counts the items already done.
\<close>

fun run_items :: "task_env \<Rightarrow> nat \<Rightarrow> OrderItem list \<Rightarrow> Product list \<Rightarrow> Inventory list
    \<Rightarrow> (exn + Inventory list) \<times> string list" where
  "run_items env k [] ps invs = (Inr invs, [])"
| "run_items env k (item # rest) ps invs =
     (if fault env = Some (FaultItem k) then (Inl (unexpected env), [])
      else case find (\<lambda>p. p_sku p = item_sku item) ps of
        None \<Rightarrow> (Inl (ValueError (product_not_found_msg (item_sku item))), [])
      | Some product \<Rightarrow>
          (case find (\<lambda>i. inv_product_id i = p_id product) invs of
             None \<Rightarrow> (Inl (ValueError (no_inventory_msg (item_sku item))), [])
           | Some row \<Rightarrow>
               if quantity row - reserved row < item_quantity item
               then (Inl (ValueError (insufficient_stock_msg (item_sku item) (item_quantity item)
                              (quantity row - reserved row))), [item_sku item])
               else
                 (case run_items env (Suc k) rest ps
                         (update_first (\<lambda>i. inv_product_id i = p_id product)
                            (\<lambda>i. i\<lparr>quantity := quantity i - item_quantity item,
                                   inv_updated_at := Some (clock env k)\<rparr>) invs) of
                    (r, locked) \<Rightarrow> (r, item_sku item # locked))))"

definition success_log :: "task_env \<Rightarrow> Order \<Rightarrow> SyncLog" where
  "success_log env order =
     \<lparr>task_id = request_id env, task_name = ''process_order'', log_status = SUCCESS,
      log_order_id = Some (order_id order),
      details = Some (''Order '' @ external_order_id order @ '' processed '' @ em_dash @ '' ''
                       @ str_nat (length (items order)) @ '' items fulfilled.''),
      log_error_message = None, traceback = None, duration_ms = Some (elapsed_ms env)\<rparr>"

text \<open>
  The \<open>try\<close> body of \<open>process_order\<close>. It returns what the body returned or raised, the
  database as last committed (the state \<open>db.rollback()\<close> goes back to), and the SKUs locked.
\<close>

definition process_order_body :: "task_env \<Rightarrow> int \<Rightarrow> Db \<Rightarrow> (exn + task_result) \<times> Db \<times> string list" where
  "process_order_body env oid db =
     (if fault env = Some FaultLoad then (Inl (unexpected env), db, [])
      else case find (\<lambda>r. order_id r = oid) (orders db) of
        None \<Rightarrow> (Inr (TaskError (order_not_found_msg oid)), db, [])
      | Some order \<Rightarrow>
          if fault env = Some FaultClaim then (Inl (unexpected env), db, [])
          else
            let db1 = db\<lparr>orders := update_first (\<lambda>r. order_id r = oid)
                                      (\<lambda>r. r\<lparr>status := PROCESSING\<rparr>) (orders db)\<rparr>
            in (case run_items env 0 (items order) (products db1) (inventory db1) of
                  (Inl e, locked) \<Rightarrow> (Inl e, db1, locked)
                | (Inr invs, locked) \<Rightarrow>
                    if fault env = Some FaultCommit then (Inl (unexpected env), db1, locked)
                    else
                      let db2 = db1\<lparr>inventory := invs,
                                   orders := update_first (\<lambda>r. order_id r = oid)
                                     (\<lambda>r. r\<lparr>status := COMPLETED,
                                            processed_at := Some (clock env (length (items order))),
                                            error_message := None\<rparr>) (orders db1),
                                   sync_logs := sync_logs db1 @ [success_log env order]\<rparr>
                      in if fault env = Some FaultAfterCommit
                         then (Inl (unexpected env), db2, locked)
                         else (Inr (TaskCompleted oid (external_order_id order) (elapsed_ms env)),
                               db2, locked)))"

definition failure_log :: "task_env \<Rightarrow> int \<Rightarrow> string \<Rightarrow> string option \<Rightarrow> SyncLog" where
  "failure_log env oid msg tb =
     \<lparr>task_id = request_id env, task_name = ''process_order'', log_status = FAILURE,
      log_order_id = Some oid, details = None, log_error_message = Some msg,
      traceback = tb, duration_ms = Some (elapsed_ms env)\<rparr>"

text \<open>\<open>_mark_failed\<close>: when its own database call raises, nothing of it is committed.\<close>

definition mark_failed :: "task_env \<Rightarrow> Db \<Rightarrow> int \<Rightarrow> string \<Rightarrow> string option \<Rightarrow> Db" where
  "mark_failed env db oid msg tb =
     (if mark_failed_fault env then db
      else db\<lparr>orders := update_first (\<lambda>r. order_id r = oid)
                           (\<lambda>r. r\<lparr>status := FAILED, error_message := Some msg\<rparr>) (orders db),
              sync_logs := sync_logs db @ [failure_log env oid msg tb]\<rparr>)"

definition retry_log :: "task_env \<Rightarrow> int \<Rightarrow> nat \<Rightarrow> string \<Rightarrow> SyncLog" where
  "retry_log env oid attempt err =
     \<lparr>task_id = request_id env, task_name = ''process_order'', log_status = RETRY,
      log_order_id = Some oid, details = Some (''Retry attempt '' @ str_nat attempt),
      log_error_message = Some err, traceback = None, duration_ms = None\<rparr>"

text \<open>\<open>_log_retry\<close>.\<close>

definition log_retry :: "task_env \<Rightarrow> Db \<Rightarrow> int \<Rightarrow> nat \<Rightarrow> string \<Rightarrow> Db" where
  "log_retry env db oid attempt err =
     (if log_retry_fault env then db
      else db\<lparr>sync_logs := sync_logs db @ [retry_log env oid attempt err]\<rparr>)"

text \<open>\<open>process_order\<close>: the body and its two handlers. The result and the committed database.\<close>

definition process_order :: "task_env \<Rightarrow> int \<Rightarrow> Db \<Rightarrow> task_result \<times> Db" where
  "process_order env oid db =
     (case process_order_body env oid db of
        (Inr r, db', locked) \<Rightarrow> (r, db')
      | (Inl (ValueError msg), db', locked) \<Rightarrow> (TaskFailed oid msg, mark_failed env db' oid msg None)
      | (Inl (OtherError ty txt), db', locked) \<Rightarrow>
          (let error_msg = ty @ '': '' @ txt;
               db'' = mark_failed env db' oid error_msg (Some (traceback_text env))
           in if retries env < max_retries
              then (TaskRetry (60 * 2 ^ retries env) error_msg,
                    log_retry env db'' oid (retries env + 1) error_msg)
              else (TaskFailed oid error_msg, db'')))"

text \<open>The SKUs whose inventory row an attempt locks, in the order it locks them.\<close>

definition locked_skus :: "task_env \<Rightarrow> int \<Rightarrow> Db \<Rightarrow> string list" where
  "locked_skus env oid db = snd (snd (process_order_body env oid db))"

section \<open>Manual retry (app/api/orders.py, \<open>retry_order\<close>)\<close>

record WebhookResponse =
  resp_status :: string
  resp_message :: string
  resp_order_id :: "int option"
  resp_task_id :: "string option"

datatype http_error = HTTPException nat string

text \<open>
  \<open>dispatch\<close> is what the broker answers to \<open>process_order.delay\<close>: the id of the new task,
  or \<open>None\<close> when the call raises (the endpoint logs that and goes on). The last component
  is the list of order ids enqueued.
\<close>

definition retry_order :: "string option \<Rightarrow> int \<Rightarrow> Db \<Rightarrow> (http_error + WebhookResponse) \<times> Db \<times> int list" where
  "retry_order dispatch oid db =
     (case find (\<lambda>r. order_id r = oid) (orders db) of
        None \<Rightarrow> (Inl (HTTPException 404 (order_not_found_msg oid)), db, [])
      | Some order \<Rightarrow>
          if status order \<noteq> FAILED \<and> status order \<noteq> PENDING
          then (Inl (HTTPException 400
                       (''Can only retry failed or pending orders. Current status: ''
                          @ status_value (status order))), db, [])
          else
            (Inr \<lparr>resp_status = ''retrying'',
                  resp_message = ''Order '' @ str_int oid
                     @ '' has been re-queued for processing (retry #''
                     @ str_int (retry_count order + 1) @ '').'',
                  resp_order_id = Some (order_id order),
                  resp_task_id = dispatch\<rparr>,
             db\<lparr>orders := update_first (\<lambda>r. order_id r = oid)
                                (\<lambda>r. r\<lparr>status := PENDING, error_message := None,
                                       retry_count := retry_count r + 1\<rparr>) (orders db)\<rparr>,
             (case dispatch of None \<Rightarrow> [] | Some t \<Rightarrow> [order_id order])))"

section \<open>The inventory scan (app/tasks/inventory_tasks.py)\<close>

text \<open>The dictionaries appended to \<open>out_of_stock\<close> and to \<open>low_stock\<close>.\<close>

datatype alert =
    OutOfStock string string int
  | LowStock string string int int

definition product_of :: "Product list \<Rightarrow> Inventory \<Rightarrow> Product option" where
  "product_of ps row = find (\<lambda>p. p_id p = inv_product_id row) ps"

definition row_name :: "Product list \<Rightarrow> Inventory \<Rightarrow> string" where
  "row_name ps row = (case product_of ps row of Some p \<Rightarrow> p_name p
                      | None \<Rightarrow> ''product_id='' @ str_int (inv_product_id row))"

definition row_sku :: "Product list \<Rightarrow> Inventory \<Rightarrow> string" where
  "row_sku ps row = (case product_of ps row of Some p \<Rightarrow> p_sku p | None \<Rightarrow> ''?'')"

text \<open>The first loop of the scan, with its two accumulators.\<close>

fun scan_rows :: "Product list \<Rightarrow> Inventory list \<Rightarrow> alert list \<Rightarrow> alert list \<Rightarrow> alert list \<times> alert list" where
  "scan_rows ps [] low_stock out_of_stock = (low_stock, out_of_stock)"
| "scan_rows ps (row # rest) low_stock out_of_stock =
     (if quantity row - reserved row \<le> 0
      then scan_rows ps rest low_stock
             (out_of_stock @ [OutOfStock (row_sku ps row) (row_name ps row) (quantity row - reserved row)])
      else if quantity row - reserved row \<le> reorder_level row
      then scan_rows ps rest
             (low_stock @ [LowStock (row_sku ps row) (row_name ps row) (quantity row - reserved row)
                             (reorder_level row)])
             out_of_stock
      else scan_rows ps rest low_stock out_of_stock)"

record scan_env =
  scan_elapsed_ms :: int
  scan_fault :: "string option"
  scan_log_fault :: bool

text \<open>The per-alert entry: the two \<open>db.add\<close> of the scan, one for each kind of dictionary.\<close>

fun alert_log :: "scan_env \<Rightarrow> alert \<Rightarrow> SyncLog" where
  "alert_log env (OutOfStock sku name avail) =
     \<lparr>task_id = None, task_name = ''sync_inventory'', log_status = FAILURE, log_order_id = None,
      details = Some (''OUT OF STOCK: '' @ sku @ '' '' @ em_dash @ '' '' @ name),
      log_error_message = Some (''Available: '' @ str_int avail),
      traceback = None, duration_ms = Some (scan_elapsed_ms env)\<rparr>"
| "alert_log env (LowStock sku name avail level) =
     \<lparr>task_id = None, task_name = ''sync_inventory'', log_status = SUCCESS, log_order_id = None,
      details = Some (''LOW STOCK: '' @ sku @ '' '' @ em_dash @ '' '' @ name @ '', available=''
                       @ str_int avail @ '', reorder_level='' @ str_int level),
      log_error_message = None, traceback = None, duration_ms = Some (scan_elapsed_ms env)\<rparr>"

definition summary_text :: "nat \<Rightarrow> nat \<Rightarrow> nat \<Rightarrow> string" where
  "summary_text n_total n_low n_out =
     ''Inventory sync done: '' @ str_nat n_total @ '' products checked, '' @ str_nat n_low
       @ '' low stock, '' @ str_nat n_out @ '' out of stock.''"

definition summary_log :: "scan_env \<Rightarrow> nat \<Rightarrow> nat \<Rightarrow> nat \<Rightarrow> SyncLog" where
  "summary_log env n_total n_low n_out =
     \<lparr>task_id = None, task_name = ''sync_inventory'', log_status = SUCCESS, log_order_id = None,
      details = Some (summary_text n_total n_low n_out), log_error_message = None, traceback = None,
      duration_ms = Some (scan_elapsed_ms env)\<rparr>"

definition scan_failure_log :: "scan_env \<Rightarrow> string \<Rightarrow> SyncLog" where
  "scan_failure_log env msg =
     \<lparr>task_id = None, task_name = ''sync_inventory'', log_status = FAILURE, log_order_id = None,
      details = None, log_error_message = Some msg, traceback = None,
      duration_ms = Some (scan_elapsed_ms env)\<rparr>"

datatype scan_result = ScanCompleted nat nat nat int | ScanFailed string

text \<open>
  \<open>sync_inventory\<close>. \<open>scan_fault env = Some msg\<close>: a database call of the body (the query or
  the commit) raises an exception whose text is \<open>msg\<close>; nothing of the body is committed
  then, and the handler writes its own entry unless that write raises too.
\<close>

definition sync_inventory :: "scan_env \<Rightarrow> Db \<Rightarrow> scan_result \<times> Db" where
  "sync_inventory env db =
     (case scan_fault env of
        Some msg \<Rightarrow>
          (ScanFailed msg,
           if scan_log_fault env then db
           else db\<lparr>sync_logs := sync_logs db @ [scan_failure_log env msg]\<rparr>)
      | None \<Rightarrow>
          (case scan_rows (products db) (inventory db) [] [] of
             (low_stock, out_of_stock) \<Rightarrow>
               (ScanCompleted (length (inventory db)) (length low_stock) (length out_of_stock)
                  (scan_elapsed_ms env),
                db\<lparr>sync_logs := sync_logs db @ map (alert_log env) out_of_stock
                        @ map (alert_log env) low_stock
                        @ [summary_log env (length (inventory db)) (length low_stock)
                             (length out_of_stock)]\<rparr>)))"

section \<open>Notions used to state the properties\<close>

text \<open>The database with the status of order \<open>oid\<close> replaced.\<close>

definition with_status :: "int \<Rightarrow> OrderStatus \<Rightarrow> Db \<Rightarrow> Db" where
  "with_status oid s db =
     db\<lparr>orders := update_first (\<lambda>r. order_id r = oid) (\<lambda>r. r\<lparr>status := s\<rparr>) (orders db)\<rparr>"

text \<open>The line item's SKU is the SKU of the catalog product with id \<open>pid\<close>.\<close>

definition resolves :: "Product list \<Rightarrow> OrderItem \<Rightarrow> int \<Rightarrow> bool" where
  "resolves ps item pid =
     (case find (\<lambda>p. p_sku p = item_sku item) ps of None \<Rightarrow> False | Some p \<Rightarrow> p_id p = pid)"

text \<open>What the line items ask of product \<open>pid\<close> in total.\<close>

definition demand :: "Product list \<Rightarrow> OrderItem list \<Rightarrow> int \<Rightarrow> int" where
  "demand ps its pid = sum_list (map item_quantity (filter (\<lambda>it. resolves ps it pid) its))"

text \<open>
  An inventory row before and after a fulfilled order: the quantity went down by what the
  items ask of its product, the other stock columns are the same, and a row that no item
  refers to is the same row.
\<close>

definition fulfilled_row :: "Product list \<Rightarrow> OrderItem list \<Rightarrow> Inventory \<Rightarrow> Inventory \<Rightarrow> bool" where
  "fulfilled_row ps its row row' =
     (inv_id row' = inv_id row \<and> inv_product_id row' = inv_product_id row
      \<and> reserved row' = reserved row \<and> reorder_level row' = reorder_level row
      \<and> quantity row' = quantity row - demand ps its (inv_product_id row)
      \<and> ((\<forall>it\<in>set its. \<not> resolves ps it (inv_product_id row)) \<longrightarrow> row' = row))"

text \<open>The character is one of 0 to 9.\<close>

definition is_digit :: "char \<Rightarrow> bool" where
  "is_digit c = (48 \<le> (of_char c :: nat) \<and> (of_char c :: nat) \<le> 57)"

definition out_of_stock_alert :: "Product list \<Rightarrow> Inventory \<Rightarrow> alert" where
  "out_of_stock_alert ps row = OutOfStock (row_sku ps row) (row_name ps row) (available row)"

definition low_stock_alert :: "Product list \<Rightarrow> Inventory \<Rightarrow> alert" where
  "low_stock_alert ps row =
     LowStock (row_sku ps row) (row_name ps row) (available row) (reorder_level row)"

section \<open>A shop used to run the tasks on concrete rows\<close>

definition env0 :: task_env where
  "env0 = \<lparr>request_id = Some ''task-1'', retries = 0, clock = (\<lambda>k. 1000 + int k),
           elapsed_ms = 12, fault = None, fault_type = ''OperationalError'',
           fault_text = ''connection lost'', traceback_text = ''Traceback (most recent call last)'',
           mark_failed_fault = False, log_retry_fault = False\<rparr>"

definition scan_env0 :: scan_env where
  "scan_env0 = \<lparr>scan_elapsed_ms = 7, scan_fault = None, scan_log_fault = False\<rparr>"

text \<open>A scan during which the database is down, the handler's write going through.\<close>

definition scan_env_down :: scan_env where
  "scan_env_down = scan_env0\<lparr>scan_fault := Some ''connection lost''\<rparr>"

definition shop_products :: "Product list" where
  "shop_products =
     [\<lparr>p_id = 1, p_sku = ''W1'', p_name = ''Widget''\<rparr>,
      \<lparr>p_id = 2, p_sku = ''X1'', p_name = ''Gadget''\<rparr>,
      \<lparr>p_id = 3, p_sku = ''A1'', p_name = ''Anchor''\<rparr>,
      \<lparr>p_id = 4, p_sku = ''B1'', p_name = ''Bolt''\<rparr>,
      \<lparr>p_id = 5, p_sku = ''N1'', p_name = ''Nut''\<rparr>]"

definition shop_inventory :: "Inventory list" where
  "shop_inventory =
     [\<lparr>inv_id = 1, inv_product_id = 1, quantity = 5, reserved = 0, reorder_level = 15,
       inv_updated_at = None\<rparr>,
      \<lparr>inv_id = 2, inv_product_id = 2, quantity = 2, reserved = 0, reorder_level = 1,
       inv_updated_at = None\<rparr>,
      \<lparr>inv_id = 3, inv_product_id = 3, quantity = 10, reserved = 10, reorder_level = 2,
       inv_updated_at = None\<rparr>,
      \<lparr>inv_id = 4, inv_product_id = 4, quantity = 40, reserved = 4, reorder_level = 2,
       inv_updated_at = None\<rparr>]"

definition mk_order :: "int \<Rightarrow> OrderStatus \<Rightarrow> (string \<times> int) list \<Rightarrow> Order" where
  "mk_order n s its =
     \<lparr>order_id = n, external_order_id = str_int (1000 + n), status = s,
      items = map (\<lambda>(sku, q). \<lparr>item_sku = sku, item_quantity = q\<rparr>) its,
      processed_at = None, error_message = None, retry_count = 0\<rparr>"

definition shop_orders :: "Order list" where
  "shop_orders =
     [mk_order 1 PENDING [(''W1'', 3)],
      mk_order 2 PENDING [(''X1'', 5)],
      mk_order 3 COMPLETED [(''W1'', 3)],
      mk_order 4 PENDING [(''W1'', 2), (''B1'', 1)],
      mk_order 5 PENDING [(''B1'', 1), (''X1'', 5)],
      mk_order 6 PENDING [(''B1'', 1), (''N1'', 1)],
      mk_order 7 CANCELLED [(''B1'', 6)],
      mk_order 8 FAILED [(''W1'', 1), (''W1'', 2)]]"

definition shop_db :: Db where
  "shop_db = \<lparr>products = shop_products, inventory = shop_inventory, orders = shop_orders,
              sync_logs = []\<rparr>"

text \<open>The same request with a fault at the first line item, after \<open>n\<close> retries.\<close>

definition env_fault :: "nat \<Rightarrow> task_env" where
  "env_fault n = env0\<lparr>retries := n, fault := Some (FaultItem 0)\<rparr>"

text \<open>The shop's inventory once one B1 was taken at clock reading 1000.\<close>

definition b1_taken :: "Inventory list" where
  "b1_taken =
     [\<lparr>inv_id = 1, inv_product_id = 1, quantity = 5, reserved = 0, reorder_level = 15,
       inv_updated_at = None\<rparr>,
      \<lparr>inv_id = 2, inv_product_id = 2, quantity = 2, reserved = 0, reorder_level = 1,
       inv_updated_at = None\<rparr>,
      \<lparr>inv_id = 3, inv_product_id = 3, quantity = 10, reserved = 10, reorder_level = 2,
       inv_updated_at = None\<rparr>,
      \<lparr>inv_id = 4, inv_product_id = 4, quantity = 39, reserved = 4, reorder_level = 2,
       inv_updated_at = Some 1000\<rparr>]"



definition fault_msg :: string where
  "fault_msg = ''OperationalError: connection lost''"

text \<open>
  The shop after the job of order 1 was delivered \<open>n\<close> times, each attempt hitting the
  fault, the \<open>k\<close>-th delivery with \<open>k\<close> retries behind it.
\<close>

fun after_attempts :: "nat \<Rightarrow> Db" where
  "after_attempts 0 = shop_db"
| "after_attempts (Suc n) = snd (process_order (env_fault n) 1 (after_attempts n))"

section \<open>Facts about queries and updates\<close>

lemma update_first_set:
  "find P xs = Some x \<Longrightarrow> set (update_first P f xs) \<subseteq> insert (f x) (set xs)"
  by (induction xs) (auto split: if_splits)

lemma find_update_first:
  "(\<And>x. P x \<Longrightarrow> P (f x)) \<Longrightarrow> find P (update_first P f xs) = map_option f (find P xs)"
  by (induction xs) auto

lemma update_first_twice:
  "(\<And>x. P x \<Longrightarrow> P (f x)) \<Longrightarrow>
     update_first P g (update_first P f xs) = update_first P (\<lambda>x. g (f x)) xs"
  by (induction xs) auto

lemma update_first_none: "find P xs = None \<Longrightarrow> update_first P f xs = xs"
  by (induction xs) (auto split: if_splits)

lemma digit_char_simps:
  "digit_char 0 = CHR ''0''" "digit_char 1 = CHR ''1''" "digit_char 2 = CHR ''2''"
  "digit_char 3 = CHR ''3''" "digit_char 4 = CHR ''4''" "digit_char 5 = CHR ''5''"
  "digit_char 6 = CHR ''6''" "digit_char 7 = CHR ''7''" "digit_char 8 = CHR ''8''"
  "digit_char 9 = CHR ''9''" "digit_char (Suc 0) = CHR ''1''"
  by code_simp+

lemmas str_simps = str_int_def str_nat.simps digit_char_simps

lemmas shop_defs = shop_db_def shop_orders_def shop_products_def shop_inventory_def mk_order_def env0_def


lemma run_items_append:
  "run_items env k pre ps invs = (Inr invs', tr) \<Longrightarrow>
   run_items env k (pre @ rest) ps invs =
     (case run_items env (k + length pre) rest ps invs' of (r, tr') \<Rightarrow> (r, tr @ tr'))"
proof (induction pre arbitrary: k invs tr)
  case Nil
  then show ?case by (simp split: prod.splits)
next
  case (Cons item pre)
  show ?case
    using Cons.prems Cons.IH
    by (auto split: if_splits option.splits prod.splits)
qed

section \<open>Available stock never goes negative\<close>

lemma run_items_available:
  "run_items env k its ps invs = (Inr invs', tr) \<Longrightarrow> \<forall>r\<in>set invs. 0 \<le> available r
     \<Longrightarrow> \<forall>r\<in>set invs'. 0 \<le> available r"
proof (induction its arbitrary: k invs tr)
  case Nil
  then show ?case by simp
next
  case (Cons item rest)
  from Cons.prems(1) obtain product row tr' where
    p: "find (\<lambda>p. p_sku p = item_sku item) ps = Some product" and
    r: "find (\<lambda>i. inv_product_id i = p_id product) invs = Some row" and
    ok: "\<not> quantity row - reserved row < item_quantity item" and
    rec: "run_items env (Suc k) rest ps
            (update_first (\<lambda>i. inv_product_id i = p_id product)
               (\<lambda>i. i\<lparr>quantity := quantity i - item_quantity item,
                      inv_updated_at := Some (clock env k)\<rparr>) invs) = (Inr invs', tr')"
    by (auto split: if_splits option.splits prod.splits)
  let ?f = "\<lambda>i. i\<lparr>quantity := quantity i - item_quantity item, inv_updated_at := Some (clock env k)\<rparr>"
  have "\<forall>r\<in>set (update_first (\<lambda>i. inv_product_id i = p_id product) ?f invs). 0 \<le> available r"
  proof
    fix x assume "x \<in> set (update_first (\<lambda>i. inv_product_id i = p_id product) ?f invs)"
    with update_first_set[OF r, of ?f] have "x = ?f row \<or> x \<in> set invs" by auto
    then show "0 \<le> available x"
      using ok Cons.prems(2) by (auto simp: available_def)
  qed
  from Cons.IH[OF rec this] show ?case .
qed

lemma process_order_inventory_cases:
  "inventory (snd (process_order env oid db)) = inventory db \<or>
   (\<exists>order locked. find (\<lambda>r. order_id r = oid) (orders db) = Some order \<and>
      run_items env 0 (items order) (products db) (inventory db)
        = (Inr (inventory (snd (process_order env oid db))), locked))"
  by (auto simp: process_order_def process_order_body_def mark_failed_def log_retry_def Let_def
      split: option.splits prod.splits sum.splits exn.splits)

text \<open>
  C1. If every inventory row has \<open>available = quantity - reserved \<ge> 0\<close> before an attempt
  of \<open>process_order\<close>, every inventory row of the database the attempt leaves committed has
  \<open>available \<ge> 0\<close> too, whatever the outcome (completed, failed, to be retried): a decrement
  happens only after the check \<open>available \<ge> requested\<close> on the locked row.
\<close>

theorem process_order_available_nonneg:
  assumes "\<forall>row\<in>set (inventory db). 0 \<le> available row"
  shows "\<forall>row\<in>set (inventory (snd (process_order env oid db))). 0 \<le> available row"
  using process_order_inventory_cases[of env oid db] assms run_items_available
  by metis

theorem process_order_available_nonneg_witness:
  "list_all (\<lambda>row. 0 \<le> available row) (inventory shop_db)
   \<and> list_all (\<lambda>row. 0 \<le> available row) (inventory (snd (process_order env0 1 shop_db)))
   \<and> map quantity (inventory (snd (process_order env0 1 shop_db))) = [2, 2, 10, 40]"
proof -
  have h: "\<forall>row\<in>set (inventory shop_db). 0 \<le> available row"
    by (simp add: shop_db_def shop_inventory_def available_def)
  have q: "map quantity (inventory (snd (process_order env0 1 shop_db))) = [2, 2, 10, 40]"
    by (simp add: process_order_def process_order_body_def env0_def shop_db_def shop_orders_def
        shop_inventory_def shop_products_def mk_order_def)
  from h process_order_available_nonneg[OF h, of env0 1] q show ?thesis
    unfolding list_all_iff by blast
qed

section \<open>An order that is already completed or cancelled\<close>

lemma process_order_with_status:
  assumes "\<not> mark_failed_fault env"
  shows "process_order env oid (with_status oid s db) = process_order env oid db"
proof (cases "find (\<lambda>r. order_id r = oid) (orders db)")
  case None
  then show ?thesis by (simp add: with_status_def update_first_none)
next
  case (Some order)
  show ?thesis
    using assms Some
    by (simp add: process_order_def process_order_body_def with_status_def mark_failed_def
        log_retry_def Let_def find_update_first update_first_twice success_log_def
        split: prod.splits sum.splits exn.splits)
qed

text \<open>
  C2. \<open>process_order\<close> has no check of the order's status, so a job delivered again
  for an order that is already COMPLETED or CANCELLED is processed like any other, where
  the claim asks for a no-op. Order 3 of the shop is COMPLETED and asks for 3 of W1: the
  job takes 3 more of W1 (5 to 2) and appends a SUCCESS entry. Order 7 is CANCELLED: the
  job takes 6 of B1 (40 to 34) and leaves the order COMPLETED.
\<close>

theorem process_order_terminal_not_noop:
  "map_option status (find (\<lambda>r. order_id r = 3) (orders shop_db)) = Some COMPLETED
   \<and> map quantity (inventory shop_db) = [5, 2, 10, 40]
   \<and> fst (process_order env0 3 shop_db) = TaskCompleted 3 ''1003'' 12
   \<and> map quantity (inventory (snd (process_order env0 3 shop_db))) = [2, 2, 10, 40]
   \<and> sync_logs shop_db = []
   \<and> map log_status (sync_logs (snd (process_order env0 3 shop_db))) = [SUCCESS]
   \<and> map_option status (find (\<lambda>r. order_id r = 7) (orders shop_db)) = Some CANCELLED
   \<and> map_option status (find (\<lambda>r. order_id r = 7) (orders (snd (process_order env0 7 shop_db))))
       = Some COMPLETED
   \<and> map quantity (inventory (snd (process_order env0 7 shop_db))) = [5, 2, 10, 34]"
  by (simp add: process_order_def process_order_body_def shop_defs success_log_def str_simps)

section \<open>The order in which inventory rows are locked\<close>

lemma run_items_locked:
  "run_items env k its ps invs = (r, tr) \<Longrightarrow>
     tr = take (length tr) (map item_sku its) \<and> (\<forall>invs'. r = Inr invs' \<longrightarrow> tr = map item_sku its)"
proof (induction its arbitrary: k invs r tr)
  case Nil
  then show ?case by simp
next
  case (Cons item rest)
  show ?case
    using Cons.prems Cons.IH
    by (auto split: if_splits option.splits prod.splits)
qed

text \<open>
  C3, as stated, fails: the loop is \<open>for item in order.items\<close>, with no sort. Order 4 of
  the shop holds its items as W1, B1; the attempt completes and has locked W1 first, then
  B1, which is not the ascending order B1, W1.
\<close>

theorem locked_skus_not_sorted:
  "find (\<lambda>r. order_id r = 4) (orders shop_db) = Some (mk_order 4 PENDING [(''W1'', 2), (''B1'', 1)])
   \<and> fst (process_order env0 4 shop_db) = TaskCompleted 4 ''1004'' 12
   \<and> locked_skus env0 4 shop_db = [''W1'', ''B1'']
   \<and> sort (map item_sku (items (mk_order 4 PENDING [(''W1'', 2), (''B1'', 1)]))) = [''B1'', ''W1'']"
proof -
  have s: "sort [''W1'', ''B1''] = [''B1'', ''W1'']" by code_simp
  show ?thesis
    by (simp add: s locked_skus_def process_order_def process_order_body_def shop_defs str_simps)
qed

text \<open>
  C3, amended. \<open>process_order\<close> visits the line items in the order in which \<open>order.items\<close>
  holds them: the sequence of SKUs whose inventory row it locks is an initial segment of
  the SKUs of the order's items in that stored order, and it is all of them, in that order,
  when the attempt completes.
\<close>

theorem locked_skus_stored_order:
  assumes "find (\<lambda>r. order_id r = oid) (orders db) = Some order"
  shows "locked_skus env oid db = take (length (locked_skus env oid db)) (map item_sku (items order))
    \<and> (\<forall>a b c. fst (process_order env oid db) = TaskCompleted a b c
          \<longrightarrow> locked_skus env oid db = map item_sku (items order))"
proof -
  obtain r tr where rt: "run_items env 0 (items order) (products db) (inventory db) = (r, tr)"
    by (cases "run_items env 0 (items order) (products db) (inventory db)")
  from run_items_locked[OF rt] show ?thesis
    using assms rt
    by (auto simp: locked_skus_def process_order_def process_order_body_def Let_def
        split: sum.splits exn.splits if_splits)
qed

theorem locked_skus_stored_order_witness:
  "find (\<lambda>r. order_id r = 4) (orders shop_db) = Some (mk_order 4 PENDING [(''W1'', 2), (''B1'', 1)])
   \<and> fst (process_order env0 4 shop_db) = TaskCompleted 4 ''1004'' 12
   \<and> locked_skus env0 4 shop_db
       = take (length (locked_skus env0 4 shop_db))
           (map item_sku (items (mk_order 4 PENDING [(''W1'', 2), (''B1'', 1)])))
   \<and> locked_skus env0 4 shop_db = map item_sku (items (mk_order 4 PENDING [(''W1'', 2), (''B1'', 1)]))"
proof -
  have h: "find (\<lambda>r. order_id r = 4) (orders shop_db)
             = Some (mk_order 4 PENDING [(''W1'', 2), (''B1'', 1)])"
    by (simp add: shop_db_def shop_orders_def mk_order_def)
  have c: "fst (process_order env0 4 shop_db) = TaskCompleted 4 ''1004'' 12"
    by (simp add: process_order_def process_order_body_def shop_defs str_simps)
  from locked_skus_stored_order[OF h, of env0] h c show ?thesis by blast
qed

section \<open>A job for an order that does not exist\<close>

text \<open>
  C4. The shop has no order 99. \<open>process_order\<close> returns the "error" result without a
  retry, and the database it leaves is the one it found: no SyncLog is written for this
  attempt, where the claim asks for exactly one.
\<close>

theorem process_order_not_found_no_log:
  "find (\<lambda>r. order_id r = 99) (orders shop_db) = None
   \<and> process_order env0 99 shop_db = (TaskError ''Order 99 not found'', shop_db)
   \<and> sync_logs (snd (process_order env0 99 shop_db)) = sync_logs shop_db"
  by (simp add: process_order_def process_order_body_def shop_defs order_not_found_msg_def str_simps)

section \<open>The counts can be read back from a message\<close>

lemma of_char_digit_char: "d < 10 \<Longrightarrow> of_char (digit_char d) = (48 + d :: nat)"
  by (simp add: digit_char_def)

lemma digit_char_inj: "d < 10 \<Longrightarrow> e < 10 \<Longrightarrow> digit_char d = digit_char e \<Longrightarrow> d = e"
proof -
  assume d: "d < 10" and e: "e < 10" and eq: "digit_char d = digit_char e"
  have "(of_char (digit_char d) :: nat) = of_char (digit_char e)"
    by (rule arg_cong[OF eq])
  then have "48 + d = 48 + e"
    by (simp only: of_char_digit_char[OF d] of_char_digit_char[OF e])
  then show "d = e" by (rule add_left_imp_eq)
qed

lemma str_nat_not_Nil: "str_nat n \<noteq> []"
  by (subst str_nat.simps) simp

lemma str_nat_length: "10 \<le> n \<Longrightarrow> 2 \<le> length (str_nat n)"
  using str_nat_not_Nil[of "n div 10"]
  by (subst str_nat.simps) (cases "str_nat (n div 10)"; simp)

lemma str_nat_inj: "str_nat n = str_nat m \<Longrightarrow> n = m"
proof (induction n arbitrary: m rule: str_nat.induct)
  case (1 n)
  show ?case
  proof (cases "n < 10")
    case True
    then have ln: "str_nat n = [digit_char n]" by (subst str_nat.simps) simp
    show ?thesis
    proof (cases "m < 10")
      case mt: True
      then have "str_nat m = [digit_char m]" by (subst str_nat.simps) simp
      with ln "1.prems" True mt show ?thesis by (simp add: digit_char_inj)
    next
      case False
      then have "2 \<le> length (str_nat m)" by (simp add: str_nat_length)
      with ln "1.prems" show ?thesis by simp
    qed
  next
    case False
    then have ln: "str_nat n = str_nat (n div 10) @ [digit_char (n mod 10)]"
      by (subst str_nat.simps) simp
    show ?thesis
    proof (cases "m < 10")
      case True
      then have "str_nat m = [digit_char m]" by (subst str_nat.simps) simp
      moreover from False have "2 \<le> length (str_nat n)" by (simp add: str_nat_length)
      ultimately show ?thesis using "1.prems" by simp
    next
      case mf: False
      then have lm: "str_nat m = str_nat (m div 10) @ [digit_char (m mod 10)]"
        by (subst str_nat.simps) simp
      from ln lm "1.prems" have a: "str_nat (n div 10) = str_nat (m div 10)"
        and b: "digit_char (n mod 10) = digit_char (m mod 10)" by simp_all
      from "1.IH"[OF False a] have "n div 10 = m div 10" .
      moreover from b have "n mod 10 = m mod 10" by (simp add: digit_char_inj)
      ultimately show ?thesis by (metis div_mult_mod_eq)
    qed
  qed
qed

lemma str_nat_digits: "\<forall>c\<in>set (str_nat n). is_digit c"
proof (induction n rule: str_nat.induct)
  case (1 n)
  show ?case
  proof (cases "n < 10")
    case True
    then show ?thesis by (subst str_nat.simps) (simp add: is_digit_def of_char_digit_char)
  next
    case False
    with "1.IH" show ?thesis
      by (subst str_nat.simps) (simp add: is_digit_def of_char_digit_char)
  qed
qed

lemma str_int_inj: "str_int i = str_int j \<Longrightarrow> i = j"
proof -
  assume eq: "str_int i = str_int j"
  have nd: "\<not> is_digit CHR ''-''" by (simp add: is_digit_def)
  have hd: "is_digit (hd (str_nat n))" for n
    using str_nat_digits[of n] str_nat_not_Nil[of n] by (cases "str_nat n") auto
  show ?thesis
  proof (cases "i < 0")
    case True
    show ?thesis
    proof (cases "j < 0")
      case jt: True
      with True eq have "str_nat (nat (- i)) = str_nat (nat (- j))" by (simp add: str_int_def)
      from str_nat_inj[OF this] True jt show ?thesis by simp
    next
      case False
      with True eq have "CHR ''-'' # str_nat (nat (- i)) = str_nat (nat j)" by (simp add: str_int_def)
      then have "hd (str_nat (nat j)) = CHR ''-''" by (metis list.sel(1))
      with hd[of "nat j"] nd show ?thesis by simp
    qed
  next
    case False
    show ?thesis
    proof (cases "j < 0")
      case True
      with False eq have "str_nat (nat i) = CHR ''-'' # str_nat (nat (- j))" by (simp add: str_int_def)
      then have "hd (str_nat (nat i)) = CHR ''-''" by simp
      with hd[of "nat i"] nd show ?thesis by simp
    next
      case jf: False
      with False eq have "str_nat (nat i) = str_nat (nat j)" by (simp add: str_int_def)
      from str_nat_inj[OF this] False jf show ?thesis by simp
    qed
  qed
qed

lemma str_int_chars: "\<forall>c\<in>set (str_int i). c \<noteq> CHR '',''"
proof -
  have "\<not> is_digit CHR '',''" by (simp add: is_digit_def)
  with str_nat_digits show ?thesis
    by (auto simp: str_int_def)
qed

lemma split_at_comma:
  "\<forall>c\<in>set xs. c \<noteq> CHR '','' \<Longrightarrow> \<forall>c\<in>set ys. c \<noteq> CHR '','' \<Longrightarrow>
     xs @ CHR '','' # r = ys @ CHR '','' # r' \<Longrightarrow> xs = ys \<and> r = r'"
proof (induction xs arbitrary: ys)
  case Nil
  then show ?case by (cases ys) auto
next
  case (Cons x xs)
  then show ?case by (cases ys) auto
qed

lemma insufficient_stock_msg_inj:
  "insufficient_stock_msg sku q a = insufficient_stock_msg sku q' a' \<Longrightarrow> q = q' \<and> a = a'"
proof -
  assume "insufficient_stock_msg sku q a = insufficient_stock_msg sku q' a'"
  then have "str_int q @ CHR '','' # ('' available='' @ str_int a)
           = str_int q' @ CHR '','' # ('' available='' @ str_int a')"
    by (simp add: insufficient_stock_msg_def)
  from split_at_comma[OF str_int_chars str_int_chars this]
  show ?thesis by (auto dest: str_int_inj)
qed


section \<open>Business validation errors\<close>

lemma process_order_business_failure:
  assumes o: "find (\<lambda>r. order_id r = oid) (orders db) = Some order"
    and nf: "fault env = None" and mf: "\<not> mark_failed_fault env"
    and run: "run_items env 0 (items order) (products db) (inventory db) = (Inl (ValueError msg), tr)"
  shows "process_order env oid db =
           (TaskFailed oid msg,
            db\<lparr>orders := update_first (\<lambda>r. order_id r = oid)
                             (\<lambda>r. r\<lparr>status := FAILED, error_message := Some msg\<rparr>) (orders db),
               sync_logs := sync_logs db @ [failure_log env oid msg None]\<rparr>)"
  using o nf mf run
  by (simp add: process_order_def process_order_body_def mark_failed_def Let_def update_first_twice)

text \<open>
  C5. When the attempt reaches a line item that asks for more than the available stock
  (\<open>quantity - reserved\<close>) of its locked row (the items before it, in stored order, have
  passed), \<open>process_order\<close> raises the \<open>ValueError\<close> whose text is "Insufficient stock
  for 'SKU': requested=R, available=A" with R the requested and A the available count in
  decimal, from which both counts can be read back; it rolls back (products and inventory
  are those from before the attempt), marks the order FAILED with that message, appends
  exactly one SyncLog, of status FAILURE, and returns the "failed" result: no retry is
  scheduled. No infrastructure fault occurs and the handler's write commits.
\<close>

theorem process_order_insufficient_stock:
  assumes "find (\<lambda>r. order_id r = oid) (orders db) = Some order"
    and "items order = pre @ item # post"
    and "fault env = None" and "\<not> mark_failed_fault env"
    and "run_items env 0 pre (products db) (inventory db) = (Inr invs, locked)"
    and "find (\<lambda>p. p_sku p = item_sku item) (products db) = Some product"
    and "find (\<lambda>i. inv_product_id i = p_id product) invs = Some row"
    and "available row < item_quantity item"
  shows "process_order env oid db =
           (TaskFailed oid (insufficient_stock_msg (item_sku item) (item_quantity item) (available row)),
            db\<lparr>orders := update_first (\<lambda>r. order_id r = oid)
                  (\<lambda>r. r\<lparr>status := FAILED, error_message :=
                     Some (insufficient_stock_msg (item_sku item) (item_quantity item) (available row))\<rparr>)
                  (orders db),
               sync_logs := sync_logs db @
                  [failure_log env oid
                     (insufficient_stock_msg (item_sku item) (item_quantity item) (available row)) None]\<rparr>)
         \<and> log_status (failure_log env oid
               (insufficient_stock_msg (item_sku item) (item_quantity item) (available row)) None) = FAILURE
         \<and> insufficient_stock_msg (item_sku item) (item_quantity item) (available row)
             = ''Insufficient stock for '' @ [CHR 0x27] @ item_sku item @ [CHR 0x27]
                 @ '': requested='' @ str_int (item_quantity item)
                 @ '', available='' @ str_int (available row)
         \<and> (\<forall>q a. insufficient_stock_msg (item_sku item) q a
                     = insufficient_stock_msg (item_sku item) (item_quantity item) (available row)
                   \<longrightarrow> q = item_quantity item \<and> a = available row)
         \<and> (\<forall>i j. str_int i = str_int j \<longrightarrow> i = j)"
proof -
  have "run_items env 0 (items order) (products db) (inventory db) =
          (Inl (ValueError (insufficient_stock_msg (item_sku item) (item_quantity item) (available row))),
           locked @ [item_sku item])"
    using assms(2,3,6,7,8) run_items_append[OF assms(5), of "item # post"]
    by (simp add: available_def)
  from process_order_business_failure[OF assms(1,3,4) this]
  have "process_order env oid db =
           (TaskFailed oid (insufficient_stock_msg (item_sku item) (item_quantity item) (available row)),
            db\<lparr>orders := update_first (\<lambda>r. order_id r = oid)
                  (\<lambda>r. r\<lparr>status := FAILED, error_message :=
                     Some (insufficient_stock_msg (item_sku item) (item_quantity item) (available row))\<rparr>)
                  (orders db),
               sync_logs := sync_logs db @
                  [failure_log env oid
                     (insufficient_stock_msg (item_sku item) (item_quantity item) (available row)) None]\<rparr>)" .
  moreover have "log_status (failure_log env oid
               (insufficient_stock_msg (item_sku item) (item_quantity item) (available row)) None) = FAILURE"
    by (simp add: failure_log_def)
  moreover have "insufficient_stock_msg (item_sku item) (item_quantity item) (available row)
             = ''Insufficient stock for '' @ [CHR 0x27] @ item_sku item @ [CHR 0x27]
                 @ '': requested='' @ str_int (item_quantity item)
                 @ '', available='' @ str_int (available row)"
    by (simp add: insufficient_stock_msg_def)
  moreover have "\<forall>q a. insufficient_stock_msg (item_sku item) q a
                     = insufficient_stock_msg (item_sku item) (item_quantity item) (available row)
                   \<longrightarrow> q = item_quantity item \<and> a = available row"
    using insufficient_stock_msg_inj by blast
  moreover have "\<forall>i j. str_int i = str_int j \<longrightarrow> i = j"
    using str_int_inj by blast
  ultimately show ?thesis by blast
qed

theorem process_order_insufficient_stock_witness:
  "find (\<lambda>r. order_id r = 5) (orders shop_db) = Some (mk_order 5 PENDING [(''B1'', 1), (''X1'', 5)])
   \<and> run_items env0 0 [\<lparr>item_sku = ''B1'', item_quantity = 1\<rparr>] (products shop_db) (inventory shop_db)
       = (Inr b1_taken, [''B1''])
   \<and> find (\<lambda>i. inv_product_id i = 2) b1_taken
       = Some \<lparr>inv_id = 2, inv_product_id = 2, quantity = 2, reserved = 0, reorder_level = 1,
               inv_updated_at = None\<rparr>
   \<and> fst (process_order env0 5 shop_db) = TaskFailed 5 (insufficient_stock_msg ''X1'' 5 2)
   \<and> inventory (snd (process_order env0 5 shop_db)) = inventory shop_db
   \<and> map log_status (sync_logs (snd (process_order env0 5 shop_db))) = [FAILURE]
   \<and> map_option (\<lambda>r. (status r, error_message r))
        (find (\<lambda>r. order_id r = 5) (orders (snd (process_order env0 5 shop_db))))
       = Some (FAILED, Some (insufficient_stock_msg ''X1'' 5 2))
   \<and> insufficient_stock_msg ''X1'' 5 2
       = ''Insufficient stock for '' @ [CHR 0x27] @ ''X1'' @ [CHR 0x27] @ '': requested=5, available=2''
   \<and> insufficient_stock_msg ''X1'' 5 3 \<noteq> insufficient_stock_msg ''X1'' 5 2"
proof -
  let ?row = "\<lparr>inv_id = 2, inv_product_id = 2, quantity = 2, reserved = 0, reorder_level = 1,
               inv_updated_at = None\<rparr>"
  let ?item = "\<lparr>item_sku = ''X1'', item_quantity = 5\<rparr>"
  have h1: "find (\<lambda>r. order_id r = 5) (orders shop_db) = Some (mk_order 5 PENDING [(''B1'', 1), (''X1'', 5)])"
    by (simp add: shop_db_def shop_orders_def mk_order_def)
  have h2: "items (mk_order 5 PENDING [(''B1'', 1), (''X1'', 5)])
              = [\<lparr>item_sku = ''B1'', item_quantity = 1\<rparr>] @ ?item # []"
    by (simp add: mk_order_def)
  have h3: "fault env0 = None" and h4: "\<not> mark_failed_fault env0"
    by (simp_all add: env0_def)
  have h5: "run_items env0 0 [\<lparr>item_sku = ''B1'', item_quantity = 1\<rparr>] (products shop_db) (inventory shop_db)
       = (Inr b1_taken, [''B1''])"
    by (simp add: shop_db_def shop_products_def shop_inventory_def env0_def b1_taken_def)
  have h6: "find (\<lambda>p. p_sku p = item_sku ?item) (products shop_db)
              = Some \<lparr>p_id = 2, p_sku = ''X1'', p_name = ''Gadget''\<rparr>"
    by (simp add: shop_db_def shop_products_def)
  have h7: "find (\<lambda>i. inv_product_id i = p_id \<lparr>p_id = 2, p_sku = ''X1'', p_name = ''Gadget''\<rparr>) b1_taken
              = Some ?row"
    by (simp add: b1_taken_def)
  have h8: "available ?row < item_quantity ?item"
    by (simp add: available_def)
  have m: "insufficient_stock_msg ''X1'' 5 2
       = ''Insufficient stock for '' @ [CHR 0x27] @ ''X1'' @ [CHR 0x27] @ '': requested=5, available=2''"
    by (simp add: insufficient_stock_msg_def str_simps)
  have o: "find (\<lambda>r. order_id r = 5)
             (update_first (\<lambda>r. order_id r = 5) (\<lambda>r. r\<lparr>status := FAILED,
                 error_message := Some (insufficient_stock_msg ''X1'' 5 2)\<rparr>) (orders shop_db))
           = Some ((mk_order 5 PENDING [(''B1'', 1), (''X1'', 5)])\<lparr>status := FAILED,
                 error_message := Some (insufficient_stock_msg ''X1'' 5 2)\<rparr>)"
    using h1 by (simp add: find_update_first)
  have sl: "sync_logs shop_db = []" by (simp add: shop_db_def)
  have d: "insufficient_stock_msg ''X1'' 5 3 \<noteq> insufficient_stock_msg ''X1'' 5 2"
    using process_order_insufficient_stock[OF h1 h2 h3 h4 h5 h6 h7 h8,
        THEN conjunct2, THEN conjunct2, THEN conjunct2, THEN conjunct1, THEN spec, THEN spec,
        of 5 3]
    by (auto simp: available_def)
  from process_order_insufficient_stock[OF h1 h2 h3 h4 h5 h6 h7 h8, THEN conjunct1] h1 h5 h7 m o sl d
  show ?thesis
    by (simp add: available_def failure_log_def)
qed



text \<open>
  C10. When the attempt reaches a line item whose SKU is in the catalog but whose product
  has no inventory row, \<open>process_order\<close> raises the \<open>ValueError\<close> "No inventory record",
  rolls back, marks the order FAILED with that message, appends exactly one SyncLog, of
  status FAILURE, and returns the "failed" result: no retry is scheduled.
\<close>

theorem process_order_no_inventory_record:
  assumes "find (\<lambda>r. order_id r = oid) (orders db) = Some order"
    and "items order = pre @ item # post"
    and "fault env = None" and "\<not> mark_failed_fault env"
    and "run_items env 0 pre (products db) (inventory db) = (Inr invs, locked)"
    and "find (\<lambda>p. p_sku p = item_sku item) (products db) = Some product"
    and "find (\<lambda>i. inv_product_id i = p_id product) invs = None"
  shows "process_order env oid db =
           (TaskFailed oid (no_inventory_msg (item_sku item)),
            db\<lparr>orders := update_first (\<lambda>r. order_id r = oid)
                  (\<lambda>r. r\<lparr>status := FAILED, error_message := Some (no_inventory_msg (item_sku item))\<rparr>)
                  (orders db),
               sync_logs := sync_logs db @ [failure_log env oid (no_inventory_msg (item_sku item)) None]\<rparr>)
         \<and> log_status (failure_log env oid (no_inventory_msg (item_sku item)) None) = FAILURE"
proof -
  have "run_items env 0 (items order) (products db) (inventory db) =
          (Inl (ValueError (no_inventory_msg (item_sku item))), locked)"
    using assms(2,3,6,7) run_items_append[OF assms(5), of "item # post"]
    by simp
  from process_order_business_failure[OF assms(1,3,4) this] show ?thesis
    by (simp add: failure_log_def)
qed


theorem process_order_no_inventory_record_witness:
  "find (\<lambda>r. order_id r = 6) (orders shop_db) = Some (mk_order 6 PENDING [(''B1'', 1), (''N1'', 1)])
   \<and> run_items env0 0 [\<lparr>item_sku = ''B1'', item_quantity = 1\<rparr>] (products shop_db) (inventory shop_db)
       = (Inr b1_taken, [''B1''])
   \<and> find (\<lambda>p. p_sku p = ''N1'') (products shop_db) = Some \<lparr>p_id = 5, p_sku = ''N1'', p_name = ''Nut''\<rparr>
   \<and> find (\<lambda>i. inv_product_id i = 5) b1_taken = None
   \<and> fst (process_order env0 6 shop_db) = TaskFailed 6 (no_inventory_msg ''N1'')
   \<and> inventory (snd (process_order env0 6 shop_db)) = inventory shop_db
   \<and> map log_status (sync_logs (snd (process_order env0 6 shop_db))) = [FAILURE]
   \<and> map_option (\<lambda>r. (status r, error_message r))
        (find (\<lambda>r. order_id r = 6) (orders (snd (process_order env0 6 shop_db))))
       = Some (FAILED, Some (no_inventory_msg ''N1''))
   \<and> no_inventory_msg ''N1'' = ''No inventory record for '' @ [CHR 0x27] @ ''N1'' @ [CHR 0x27]"
proof -
  let ?item = "\<lparr>item_sku = ''N1'', item_quantity = 1\<rparr>"
  have h1: "find (\<lambda>r. order_id r = 6) (orders shop_db) = Some (mk_order 6 PENDING [(''B1'', 1), (''N1'', 1)])"
    by (simp add: shop_db_def shop_orders_def mk_order_def)
  have h2: "items (mk_order 6 PENDING [(''B1'', 1), (''N1'', 1)])
              = [\<lparr>item_sku = ''B1'', item_quantity = 1\<rparr>] @ ?item # []"
    by (simp add: mk_order_def)
  have h3: "fault env0 = None" and h4: "\<not> mark_failed_fault env0"
    by (simp_all add: env0_def)
  have h5: "run_items env0 0 [\<lparr>item_sku = ''B1'', item_quantity = 1\<rparr>] (products shop_db) (inventory shop_db)
       = (Inr b1_taken, [''B1''])"
    by (simp add: shop_db_def shop_products_def shop_inventory_def env0_def b1_taken_def)
  have h6: "find (\<lambda>p. p_sku p = item_sku ?item) (products shop_db)
              = Some \<lparr>p_id = 5, p_sku = ''N1'', p_name = ''Nut''\<rparr>"
    by (simp add: shop_db_def shop_products_def)
  have h7: "find (\<lambda>i. inv_product_id i = p_id \<lparr>p_id = 5, p_sku = ''N1'', p_name = ''Nut''\<rparr>) b1_taken = None"
    by (simp add: b1_taken_def)
  have o: "find (\<lambda>r. order_id r = 6)
             (update_first (\<lambda>r. order_id r = 6) (\<lambda>r. r\<lparr>status := FAILED,
                 error_message := Some (no_inventory_msg ''N1'')\<rparr>) (orders shop_db))
           = Some ((mk_order 6 PENDING [(''B1'', 1), (''N1'', 1)])\<lparr>status := FAILED,
                 error_message := Some (no_inventory_msg ''N1'')\<rparr>)"
    using h1 by (simp add: find_update_first)
  have sl: "sync_logs shop_db = []" by (simp add: shop_db_def)
  have m: "no_inventory_msg ''N1'' = ''No inventory record for '' @ [CHR 0x27] @ ''N1'' @ [CHR 0x27]"
    by (simp add: no_inventory_msg_def)
  from process_order_no_inventory_record[OF h1 h2 h3 h4 h5 h6 h7] h1 h5 h6 h7 o sl m
  show ?thesis
    by (simp add: failure_log_def)
qed



section \<open>Retries\<close>






section \<open>A fulfilled order\<close>

lemma update_first_distinct_map:
  "distinct (map key xs) \<Longrightarrow>
     update_first (\<lambda>i. key i = k) f xs = map (\<lambda>i. if key i = k then f i else i) xs"
proof (induction xs)
  case Nil
  then show ?case by simp
next
  case (Cons x xs)
  show ?case
  proof (cases "key x = k")
    case True
    with Cons.prems have "\<forall>y\<in>set xs. key y \<noteq> k" by (auto simp: image_iff)
    then have "map (\<lambda>i. if key i = k then f i else i) xs = xs"
      by (induction xs) auto
    with True show ?thesis by simp
  next
    case False
    with Cons show ?thesis by simp
  qed
qed

lemma demand_Cons:
  "demand ps (item # rest) pid =
     (if resolves ps item pid then item_quantity item else 0) + demand ps rest pid"
  by (simp add: demand_def)

lemma run_items_fulfilled:
  "run_items env k its ps invs = (Inr invs', tr) \<Longrightarrow> distinct (map inv_product_id invs) \<Longrightarrow>
     list_all2 (fulfilled_row ps its) invs invs'"
proof (induction its arbitrary: k invs tr)
  case Nil
  then show ?case
    by (simp add: fulfilled_row_def demand_def list_all2_same)
next
  case (Cons item rest)
  from Cons.prems(1) obtain product row tr' where
    p: "find (\<lambda>p. p_sku p = item_sku item) ps = Some product" and
    r: "find (\<lambda>i. inv_product_id i = p_id product) invs = Some row" and
    rec: "run_items env (Suc k) rest ps
            (update_first (\<lambda>i. inv_product_id i = p_id product)
               (\<lambda>i. i\<lparr>quantity := quantity i - item_quantity item,
                      inv_updated_at := Some (clock env k)\<rparr>) invs) = (Inr invs', tr')"
    by (auto split: if_splits option.splits prod.splits)
  let ?f = "\<lambda>i. i\<lparr>quantity := quantity i - item_quantity item, inv_updated_at := Some (clock env k)\<rparr>"
  let ?g = "\<lambda>i. if inv_product_id i = p_id product then ?f i else i"
  have u: "update_first (\<lambda>i. inv_product_id i = p_id product) ?f invs = map ?g invs"
    by (rule update_first_distinct_map[OF Cons.prems(2)])
  have d: "distinct (map inv_product_id (map ?g invs))"
  proof -
    have e: "map inv_product_id (map ?g invs) = map inv_product_id invs"
      by (induction invs) auto
    show ?thesis unfolding e by (rule Cons.prems(2))
  qed
  from Cons.IH[OF rec[unfolded u] d]
  have ih: "list_all2 (\<lambda>x y. fulfilled_row ps rest (?g x) y) invs invs'"
    by (simp add: list_all2_map1)
  have res: "resolves ps item pid \<longleftrightarrow> pid = p_id product" for pid
    using p by (auto simp: resolves_def)
  show ?case
  proof (rule list_all2_mono[OF ih])
    fix x y
    assume "fulfilled_row ps rest (?g x) y"
    then show "fulfilled_row ps (item # rest) x y"
      by (auto simp: fulfilled_row_def demand_Cons res)
  qed
qed

lemma update_first_sum:
  "find P xs = Some x \<Longrightarrow>
     sum_list (map h (update_first P f xs)) = sum_list (map h xs) - h x + (h (f x) :: int)"
  by (induction xs) (auto split: if_splits)

lemma run_items_total:
  "run_items env k its ps invs = (Inr invs', tr) \<Longrightarrow>
     sum_list (map quantity invs) - sum_list (map quantity invs') = sum_list (map item_quantity its)"
proof (induction its arbitrary: k invs tr)
  case Nil
  then show ?case by simp
next
  case (Cons item rest)
  from Cons.prems(1) obtain product row tr' where
    p: "find (\<lambda>p. p_sku p = item_sku item) ps = Some product" and
    r: "find (\<lambda>i. inv_product_id i = p_id product) invs = Some row" and
    rec: "run_items env (Suc k) rest ps
            (update_first (\<lambda>i. inv_product_id i = p_id product)
               (\<lambda>i. i\<lparr>quantity := quantity i - item_quantity item,
                      inv_updated_at := Some (clock env k)\<rparr>) invs) = (Inr invs', tr')"
    by (auto split: if_splits option.splits prod.splits)
  from Cons.IH[OF rec] update_first_sum[OF r, of quantity] show ?case by simp
qed

lemma process_order_completed:
  assumes "fst (process_order env oid db) = TaskCompleted a b c"
  shows "\<exists>order invs tr. find (\<lambda>r. order_id r = oid) (orders db) = Some order
     \<and> run_items env 0 (items order) (products db) (inventory db) = (Inr invs, tr)
     \<and> a = oid \<and> b = external_order_id order \<and> c = elapsed_ms env
     \<and> snd (process_order env oid db) =
         db\<lparr>inventory := invs,
            orders := update_first (\<lambda>r. order_id r = oid)
                        (\<lambda>r. r\<lparr>status := COMPLETED,
                               processed_at := Some (clock env (length (items order))),
                               error_message := None\<rparr>) (orders db),
            sync_logs := sync_logs db @ [success_log env order]\<rparr>"
  using assms
  by (auto simp: process_order_def process_order_body_def Let_def mark_failed_def log_retry_def
      update_first_twice
      split: option.splits prod.splits sum.splits exn.splits if_splits)


text \<open>
  C6. When an attempt of \<open>process_order\<close> completes, in the committed database the order
  is COMPLETED, its \<open>processed_at\<close> is set and its \<open>error_message\<close> is cleared; every
  inventory row has its quantity decreased by exactly what the order's items ask of its
  product, its other stock columns unchanged, and a row of a product that no item refers to
  is unchanged; the total of the quantities went down by the sum of the item quantities;
  the catalog is unchanged and one SUCCESS SyncLog is appended. Inventory rows have distinct
  product ids (the column is declared unique).
\<close>

theorem process_order_completed_effect:
  assumes "fst (process_order env oid db) = TaskCompleted a b c"
    and "distinct (map inv_product_id (inventory db))"
  shows "\<exists>order. find (\<lambda>r. order_id r = oid) (orders db) = Some order
     \<and> find (\<lambda>r. order_id r = oid) (orders (snd (process_order env oid db)))
         = Some (order\<lparr>status := COMPLETED,
                       processed_at := Some (clock env (length (items order))),
                       error_message := None\<rparr>)
     \<and> list_all2 (fulfilled_row (products db) (items order))
          (inventory db) (inventory (snd (process_order env oid db)))
     \<and> sum_list (map quantity (inventory db))
          - sum_list (map quantity (inventory (snd (process_order env oid db))))
         = sum_list (map item_quantity (items order))
     \<and> products (snd (process_order env oid db)) = products db
     \<and> sync_logs (snd (process_order env oid db)) = sync_logs db @ [success_log env order]
     \<and> log_status (success_log env order) = SUCCESS"
proof -
  from process_order_completed[OF assms(1)] obtain order invs tr where
    f: "find (\<lambda>r. order_id r = oid) (orders db) = Some order" and
    r: "run_items env 0 (items order) (products db) (inventory db) = (Inr invs, tr)" and
    s: "snd (process_order env oid db) =
         db\<lparr>inventory := invs,
            orders := update_first (\<lambda>r. order_id r = oid)
                        (\<lambda>r. r\<lparr>status := COMPLETED,
                               processed_at := Some (clock env (length (items order))),
                               error_message := None\<rparr>) (orders db),
            sync_logs := sync_logs db @ [success_log env order]\<rparr>"
    by blast
  show ?thesis
    using f run_items_fulfilled[OF r assms(2)] run_items_total[OF r]
    by (simp add: s find_update_first success_log_def)
qed


theorem process_order_completed_effect_witness:
  "fst (process_order env0 4 shop_db) = TaskCompleted 4 ''1004'' 12
   \<and> distinct (map inv_product_id (inventory shop_db))
   \<and> (\<exists>order. find (\<lambda>r. order_id r = 4) (orders shop_db) = Some order
     \<and> find (\<lambda>r. order_id r = 4) (orders (snd (process_order env0 4 shop_db)))
         = Some (order\<lparr>status := COMPLETED,
                       processed_at := Some (clock env0 (length (items order))),
                       error_message := None\<rparr>)
     \<and> list_all2 (fulfilled_row (products shop_db) (items order))
          (inventory shop_db) (inventory (snd (process_order env0 4 shop_db)))
     \<and> sum_list (map quantity (inventory shop_db))
          - sum_list (map quantity (inventory (snd (process_order env0 4 shop_db))))
         = sum_list (map item_quantity (items order))
     \<and> products (snd (process_order env0 4 shop_db)) = products shop_db
     \<and> sync_logs (snd (process_order env0 4 shop_db)) = sync_logs shop_db @ [success_log env0 order]
     \<and> log_status (success_log env0 order) = SUCCESS)
   \<and> map quantity (inventory shop_db) = [5, 2, 10, 40]
   \<and> map quantity (inventory (snd (process_order env0 4 shop_db))) = [3, 2, 10, 39]"
proof -
  have h1: "fst (process_order env0 4 shop_db) = TaskCompleted 4 ''1004'' 12"
    by (simp add: process_order_def process_order_body_def shop_defs str_simps)
  have h2: "distinct (map inv_product_id (inventory shop_db))"
    by (simp add: shop_db_def shop_inventory_def)
  have q: "map quantity (inventory shop_db) = [5, 2, 10, 40]"
    "map quantity (inventory (snd (process_order env0 4 shop_db))) = [3, 2, 10, 39]"
    by (simp_all add: process_order_def process_order_body_def shop_defs)
  from process_order_completed_effect[OF h1 h2] h1 h2 q show ?thesis by blast
qed

section \<open>The retry count of an order\<close>

lemma update_first_map_same:
  "(\<And>x. h (f x) = h x) \<Longrightarrow> map h (update_first P f xs) = map h xs"
  by (induction xs) auto

lemma process_order_retry_count:
  "map retry_count (orders (snd (process_order env oid db))) = map retry_count (orders db)"
  by (simp add: process_order_def process_order_body_def mark_failed_def log_retry_def Let_def
      update_first_map_same split: option.splits prod.splits sum.splits exn.splits)

lemma update_first_le:
  "(\<And>x. (h x :: int) \<le> h (f x)) \<Longrightarrow> list_all2 (\<lambda>r r'. h r \<le> h r') xs (update_first P f xs)"
  by (induction xs) (auto simp: list_all2_same)

lemma retry_order_retry_count:
  "list_all2 (\<lambda>r r'. retry_count r \<le> retry_count r') (orders db)
     (orders (fst (snd (retry_order dispatch oid db))))"
  by (simp add: retry_order_def update_first_le list_all2_same split: option.splits)

lemma retry_order_orders:
  "orders (fst (snd (retry_order dispatch oid db))) =
     (case fst (retry_order dispatch oid db) of
        Inl e \<Rightarrow> orders db
      | Inr resp \<Rightarrow> update_first (\<lambda>r. order_id r = oid)
                      (\<lambda>r. r\<lparr>status := PENDING, error_message := None,
                             retry_count := retry_count r + 1\<rparr>) (orders db))"
  by (simp add: retry_order_def split: option.splits)

text \<open>
  C8, as stated, fails in its second half: automatic retries are counted by Celery
  (\<open>self.request.retries\<close>), and \<open>process_order\<close> never writes \<open>retry_count\<close>. The job
  of order 1 is delivered four times and meets the fault each time: it is re-scheduled
  after 60, 120 and 240 seconds and then fails for good, and the order is FAILED with a
  \<open>retry_count\<close> of 0, not of 3 or more.
\<close>

theorem exhausted_retries_retry_count_zero:
  "fst (process_order (env_fault 0) 1 (after_attempts 0)) = TaskRetry 60 fault_msg
   \<and> fst (process_order (env_fault 1) 1 (after_attempts 1)) = TaskRetry 120 fault_msg
   \<and> fst (process_order (env_fault 2) 1 (after_attempts 2)) = TaskRetry 240 fault_msg
   \<and> fst (process_order (env_fault 3) 1 (after_attempts 3)) = TaskFailed 1 fault_msg
   \<and> map_option (\<lambda>r. (status r, retry_count r))
        (find (\<lambda>r. order_id r = 1) (orders (after_attempts 4))) = Some (FAILED, 0)
   \<and> map log_status (sync_logs (after_attempts 4))
       = [FAILURE, RETRY, FAILURE, RETRY, FAILURE, RETRY, FAILURE]"
proof -
  have o: "orders (after_attempts (Suc n))
             = update_first (\<lambda>r. order_id r = 1)
                 (\<lambda>r. r\<lparr>status := FAILED, error_message := Some fault_msg\<rparr>) (orders shop_db)" for n
    by (induction n)
      (simp_all add: process_order_def process_order_body_def mark_failed_def log_retry_def
        env_fault_def env0_def unexpected_def fault_msg_def Let_def shop_db_def shop_orders_def
        mk_order_def max_retries_def)
  have r: "fst (process_order (env_fault n) 1 (after_attempts n))
             = (if n < 3 then TaskRetry (60 * 2 ^ n) fault_msg else TaskFailed 1 fault_msg)" for n
  proof (cases n)
    case 0
    then show ?thesis
      by (simp add: process_order_def process_order_body_def mark_failed_def log_retry_def
        env_fault_def env0_def unexpected_def fault_msg_def Let_def shop_db_def shop_orders_def
        mk_order_def max_retries_def)
  next
    case (Suc m)
    show ?thesis
      unfolding Suc
      by (cases "Suc m < 3")
        (simp_all add: o process_order_def process_order_body_def mark_failed_def log_retry_def
          env_fault_def env0_def unexpected_def fault_msg_def Let_def shop_db_def shop_orders_def
          mk_order_def max_retries_def del: after_attempts.simps)
  qed
  have l: "map log_status (sync_logs (after_attempts (Suc n)))
             = map log_status (sync_logs (after_attempts n))
                @ (if n < 3 then [FAILURE, RETRY] else [FAILURE])" for n
  proof (cases n)
    case 0
    then show ?thesis
      by (simp add: process_order_def process_order_body_def mark_failed_def log_retry_def
        env_fault_def env0_def unexpected_def Let_def shop_db_def shop_orders_def
        mk_order_def max_retries_def failure_log_def retry_log_def)
  next
    case (Suc m)
    have "sync_logs (after_attempts (Suc (Suc m)))
            = sync_logs (snd (process_order (env_fault (Suc m)) 1 (after_attempts (Suc m))))"
      by simp
    then show ?thesis
      unfolding Suc
      by (cases "Suc m < 3")
        (simp_all add: o process_order_def process_order_body_def mark_failed_def log_retry_def
          env_fault_def env0_def unexpected_def Let_def shop_db_def shop_orders_def
          mk_order_def max_retries_def failure_log_def retry_log_def del: after_attempts.simps)
  qed
  have l0: "map log_status (sync_logs (after_attempts 0)) = []"
    by (simp add: shop_db_def)
  have n4: "4 = Suc 3" "3 = Suc 2" "2 = Suc 1" "1 = Suc 0" by simp_all
  have l4: "map log_status (sync_logs (after_attempts 4))
       = [FAILURE, RETRY, FAILURE, RETRY, FAILURE, RETRY, FAILURE]"
    using l[of 3] l[of 2] l[of 1] l[of 0] l0
    by (simp add: eval_nat_numeral del: after_attempts.simps)
  have f: "map_option (\<lambda>r. (status r, retry_count r))
        (find (\<lambda>r. order_id r = 1) (orders (after_attempts (Suc 3)))) = Some (FAILED, 0)"
    unfolding o by (simp add: shop_db_def shop_orders_def mk_order_def)
  from r[of 0] r[of 1] r[of 2] r[of 3] f l4 show ?thesis
    by (simp add: eval_nat_numeral del: after_attempts.simps)
qed

text \<open>
  C8, amended. No operation ever decreases \<open>retry_count\<close>: \<open>process_order\<close>, whatever
  its outcome (automatic retries and the permanent failure after them included), and the
  inventory scan leave the \<open>retry_count\<close> of every order as it was; the manual retry
  endpoint leaves the orders as they were when it refuses, and when it accepts it sets the
  order PENDING, clears its error message and adds exactly one to its \<open>retry_count\<close>, the
  other orders staying as they were.
\<close>

theorem retry_count_never_decreases:
  "map retry_count (orders (snd (process_order env oid db))) = map retry_count (orders db)
   \<and> orders (snd (sync_inventory senv db)) = orders db
   \<and> list_all2 (\<lambda>r r'. retry_count r \<le> retry_count r') (orders db)
        (orders (fst (snd (retry_order dispatch oid db))))
   \<and> orders (fst (snd (retry_order dispatch oid db))) =
        (case fst (retry_order dispatch oid db) of
           Inl e \<Rightarrow> orders db
         | Inr resp \<Rightarrow> update_first (\<lambda>r. order_id r = oid)
                         (\<lambda>r. r\<lparr>status := PENDING, error_message := None,
                                retry_count := retry_count r + 1\<rparr>) (orders db))"
  using process_order_retry_count retry_order_retry_count retry_order_orders
  by (simp add: sync_inventory_def split: option.splits prod.splits)

theorem retry_count_never_decreases_witness:
  "map retry_count (orders shop_db) = [0, 0, 0, 0, 0, 0, 0, 0]
   \<and> map retry_count (orders (snd (process_order (env_fault 3) 1 shop_db))) = [0, 0, 0, 0, 0, 0, 0, 0]
   \<and> map retry_count (orders (fst (snd (retry_order (Some ''task-9'') 8 shop_db))))
       = [0, 0, 0, 0, 0, 0, 0, 1]
   \<and> map retry_count (orders (fst (snd (retry_order (Some ''task-9'') 3 shop_db))))
       = [0, 0, 0, 0, 0, 0, 0, 0]
   \<and> fst (retry_order (Some ''task-9'') 3 shop_db)
       = Inl (HTTPException 400 ''Can only retry failed or pending orders. Current status: completed'')
   \<and> fst (retry_order (Some ''task-9'') 8 shop_db)
       = Inr \<lparr>resp_status = ''retrying'',
              resp_message = ''Order 8 has been re-queued for processing (retry #1).'',
              resp_order_id = Some 8, resp_task_id = Some ''task-9''\<rparr>"
proof -
  have z: "map retry_count (orders shop_db) = [0, 0, 0, 0, 0, 0, 0, 0]"
    by (simp add: shop_db_def shop_orders_def mk_order_def)
  have a8: "fst (retry_order (Some ''task-9'') 8 shop_db)
     = Inr \<lparr>resp_status = ''retrying'',
            resp_message = ''Order 8 has been re-queued for processing (retry #1).'',
            resp_order_id = Some 8, resp_task_id = Some ''task-9''\<rparr>"
    by (simp add: retry_order_def shop_db_def shop_orders_def mk_order_def str_simps)
  have a3: "fst (retry_order (Some ''task-9'') 3 shop_db)
       = Inl (HTTPException 400 ''Can only retry failed or pending orders. Current status: completed'')"
    by (simp add: retry_order_def shop_db_def shop_orders_def mk_order_def str_simps
        status_value_def)
  note t1 = retry_count_never_decreases[of "env_fault 3" 1 shop_db scan_env0 "Some ''task-9''",
      THEN conjunct1]
  note t8 = retry_count_never_decreases[of env0 8 shop_db scan_env0 "Some ''task-9''",
      THEN conjunct2, THEN conjunct2, THEN conjunct2]
  note t3 = retry_count_never_decreases[of env0 3 shop_db scan_env0 "Some ''task-9''",
      THEN conjunct2, THEN conjunct2, THEN conjunct2]
  have r8: "map retry_count (orders (fst (snd (retry_order (Some ''task-9'') 8 shop_db))))
       = [0, 0, 0, 0, 0, 0, 0, 1]"
    unfolding t8 a8 by (simp add: shop_db_def shop_orders_def mk_order_def)
  have r3: "map retry_count (orders (fst (snd (retry_order (Some ''task-9'') 3 shop_db))))
       = [0, 0, 0, 0, 0, 0, 0, 0]"
    unfolding t3 a3 by (simp add: z)
  from z t1 r8 r3 a3 a8 show ?thesis by simp
qed


section \<open>What the inventory scan logs\<close>

lemma scan_rows_filter:
  "scan_rows ps rows low out =
     (low @ map (low_stock_alert ps)
              (filter (\<lambda>row. 0 < available row \<and> available row \<le> reorder_level row) rows),
      out @ map (out_of_stock_alert ps) (filter (\<lambda>row. available row \<le> 0) rows))"
  by (induction rows arbitrary: low out)
    (auto simp: available_def low_stock_alert_def out_of_stock_alert_def)

text \<open>
  C9. A scan whose database calls succeed appends to the SyncLogs, for the inventory rows
  in table order: one FAILURE entry for each row with \<open>available \<le> 0\<close>, naming the SKU
  and the name of the row's product and the available count; then one SUCCESS entry for
  each row with \<open>0 < available \<le> reorder_level\<close>, naming the same and the reorder level;
  no entry for any other row; and last the one summary entry, of status SUCCESS, with the
  three counts. A scan whose database call raises appends the handler's one FAILURE entry
  instead, unless that write raises too. No scan changes a product, inventory or order row.
\<close>

theorem sync_inventory_logs:
  "(scan_fault env = None \<longrightarrow>
      sync_logs (snd (sync_inventory env db)) =
        sync_logs db
        @ map (\<lambda>row. alert_log env (out_of_stock_alert (products db) row))
            (filter (\<lambda>row. available row \<le> 0) (inventory db))
        @ map (\<lambda>row. alert_log env (low_stock_alert (products db) row))
            (filter (\<lambda>row. 0 < available row \<and> available row \<le> reorder_level row) (inventory db))
        @ [summary_log env (length (inventory db))
             (length (filter (\<lambda>row. 0 < available row \<and> available row \<le> reorder_level row)
                (inventory db)))
             (length (filter (\<lambda>row. available row \<le> 0) (inventory db)))])
   \<and> (scan_fault env = Some msg \<longrightarrow>
      sync_logs (snd (sync_inventory env db)) =
        sync_logs db @ (if scan_log_fault env then [] else [scan_failure_log env msg]))
   \<and> alert_log env (out_of_stock_alert ps row) =
        \<lparr>task_id = None, task_name = ''sync_inventory'', log_status = FAILURE, log_order_id = None,
         details = Some (''OUT OF STOCK: '' @ row_sku ps row @ '' '' @ em_dash @ '' '' @ row_name ps row),
         log_error_message = Some (''Available: '' @ str_int (available row)),
         traceback = None, duration_ms = Some (scan_elapsed_ms env)\<rparr>
   \<and> alert_log env (low_stock_alert ps row) =
        \<lparr>task_id = None, task_name = ''sync_inventory'', log_status = SUCCESS, log_order_id = None,
         details = Some (''LOW STOCK: '' @ row_sku ps row @ '' '' @ em_dash @ '' '' @ row_name ps row
                          @ '', available='' @ str_int (available row)
                          @ '', reorder_level='' @ str_int (reorder_level row)),
         log_error_message = None, traceback = None, duration_ms = Some (scan_elapsed_ms env)\<rparr>
   \<and> (find (\<lambda>p. p_id p = inv_product_id row) ps = Some product \<longrightarrow>
        row_sku ps row = p_sku product \<and> row_name ps row = p_name product)
   \<and> summary_log env n_total n_low n_out =
        \<lparr>task_id = None, task_name = ''sync_inventory'', log_status = SUCCESS, log_order_id = None,
         details = Some (''Inventory sync done: '' @ str_nat n_total @ '' products checked, ''
                          @ str_nat n_low @ '' low stock, '' @ str_nat n_out @ '' out of stock.''),
         log_error_message = None, traceback = None, duration_ms = Some (scan_elapsed_ms env)\<rparr>
   \<and> products (snd (sync_inventory env db)) = products db
   \<and> inventory (snd (sync_inventory env db)) = inventory db
   \<and> orders (snd (sync_inventory env db)) = orders db"
  by (simp add: sync_inventory_def scan_rows_filter out_of_stock_alert_def low_stock_alert_def
      summary_log_def summary_text_def row_sku_def row_name_def product_of_def comp_def
      split: option.splits)

theorem sync_inventory_logs_witness:
  "scan_fault scan_env0 = None
   \<and> map available (inventory shop_db) = [5, 2, 0, 36]
   \<and> map reorder_level (inventory shop_db) = [15, 1, 2, 2]
   \<and> map (\<lambda>l. (log_status l, details l)) (sync_logs (snd (sync_inventory scan_env0 shop_db)))
       = [(FAILURE, Some (''OUT OF STOCK: A1 '' @ em_dash @ '' Anchor'')),
          (SUCCESS, Some (''LOW STOCK: W1 '' @ em_dash @ '' Widget, available=5, reorder_level=15'')),
          (SUCCESS, Some ''Inventory sync done: 4 products checked, 1 low stock, 1 out of stock.'')]
   \<and> fst (sync_inventory scan_env0 shop_db) = ScanCompleted 4 1 1 7
   \<and> scan_fault scan_env_down = Some ''connection lost''
   \<and> map (\<lambda>l. (log_status l, log_error_message l))
        (sync_logs (snd (sync_inventory scan_env_down shop_db)))
       = [(FAILURE, Some ''connection lost'')]
   \<and> row_sku (products shop_db) (inventory shop_db ! 2) = ''A1''"
proof -
  have h: "scan_fault scan_env0 = None" by (simp add: scan_env0_def)
  have hd: "scan_fault scan_env_down = Some ''connection lost''" "\<not> scan_log_fault scan_env_down"
    by (simp_all add: scan_env_down_def scan_env0_def)
  have a: "map available (inventory shop_db) = [5, 2, 0, 36]"
    "map reorder_level (inventory shop_db) = [15, 1, 2, 2]"
    by (simp_all add: shop_db_def shop_inventory_def available_def)
  have r: "fst (sync_inventory scan_env0 shop_db) = ScanCompleted 4 1 1 7"
    by (simp add: sync_inventory_def scan_env0_def shop_db_def shop_inventory_def shop_products_def)
  have len: "length (inventory shop_db) = 4" by (simp add: shop_db_def shop_inventory_def)
  have sl: "sync_logs shop_db = []" by (simp add: shop_db_def)
  note t = sync_inventory_logs[of scan_env0 shop_db "[]" "[]" "inventory shop_db ! 2"
      "\<lparr>p_id = 3, p_sku = ''A1'', p_name = ''Anchor''\<rparr>" 0 0 0]
  note t1 = t[THEN conjunct1, THEN mp, OF h]
  have l: "map (\<lambda>l. (log_status l, details l)) (sync_logs (snd (sync_inventory scan_env0 shop_db)))
       = [(FAILURE, Some (''OUT OF STOCK: A1 '' @ em_dash @ '' Anchor'')),
          (SUCCESS, Some (''LOW STOCK: W1 '' @ em_dash @ '' Widget, available=5, reorder_level=15'')),
          (SUCCESS, Some ''Inventory sync done: 4 products checked, 1 low stock, 1 out of stock.'')]"
    unfolding t1 len sl
    by (simp add: shop_db_def shop_inventory_def shop_products_def available_def
        out_of_stock_alert_def low_stock_alert_def row_sku_def row_name_def product_of_def
        summary_log_def summary_text_def str_simps)
  note t2 = sync_inventory_logs[of scan_env_down shop_db "''connection lost''" "[]"
      "inventory shop_db ! 2" "\<lparr>p_id = 3, p_sku = ''A1'', p_name = ''Anchor''\<rparr>" 0 0 0,
      THEN conjunct2, THEN conjunct1, THEN mp, OF hd(1)]
  have d: "map (\<lambda>l. (log_status l, log_error_message l))
        (sync_logs (snd (sync_inventory scan_env_down shop_db)))
       = [(FAILURE, Some ''connection lost'')]"
    unfolding t2 sl using hd(2) by (simp add: scan_failure_log_def)
  have fp: "find (\<lambda>p. p_id p = inv_product_id (inventory shop_db ! 2)) (products shop_db)
      = Some \<lparr>p_id = 3, p_sku = ''A1'', p_name = ''Anchor''\<rparr>"
    by (simp add: shop_db_def shop_inventory_def shop_products_def)
  note t3 = sync_inventory_logs[of scan_env0 shop_db "[]" "products shop_db" "inventory shop_db ! 2"
      "\<lparr>p_id = 3, p_sku = ''A1'', p_name = ''Anchor''\<rparr>" 0 0 0,
      THEN conjunct2, THEN conjunct2, THEN conjunct2, THEN conjunct2, THEN conjunct1, THEN mp, OF fp]
  have s: "row_sku (products shop_db) (inventory shop_db ! 2) = ''A1''"
    using t3 by simp
  from h a r l hd(1) d s show ?thesis by blast
qed


end
